theory Spec2Isabelle
  imports Main "HOL-Library.Sublist"
begin

section \<open>Strings, slices and scanning\<close>

text \<open>
  A Python \<open>str\<close> is a sequence of Unicode code points, and every offset of
  \<open>extract_mda.py\<close> counts code points. A string is therefore a list of code points
  (natural numbers); the constants of the source are written by code point, with the
  character named in a comment.
\<close>

type_synonym ustring = "nat list"

datatype error =
  IndexError | KeyError | ValueError | AttributeError | UnboundLocalError | RegexError

text \<open>The characters the source names.\<close>

abbreviation c_nl :: nat where "c_nl \<equiv> 10"          \<comment> \<open>newline\<close>
abbreviation c_tab :: nat where "c_tab \<equiv> 9"
abbreviation c_sp :: nat where "c_sp \<equiv> 32"
abbreviation c_dot :: nat where "c_dot \<equiv> 46"
abbreviation c_bar :: nat where "c_bar \<equiv> 124"       \<comment> \<open>the vertical bar\<close>
abbreviation c_mu :: nat where "c_mu \<equiv> 30446"       \<comment> \<open>U+76EE, first character of "table of contents"\<close>
abbreviation c_lu :: nat where "c_lu \<equiv> 24405"       \<comment> \<open>U+5F55, second character of "table of contents"\<close>
abbreviation c_di :: nat where "c_di \<equiv> 31532"       \<comment> \<open>U+7B2C, the ordinal prefix\<close>
abbreviation c_jie :: nat where "c_jie \<equiv> 33410"     \<comment> \<open>U+8282, "section"\<close>
abbreviation c_zhang :: nat where "c_zhang \<equiv> 31456" \<comment> \<open>U+7AE0, "chapter"\<close>
abbreviation c_ell :: nat where "c_ell \<equiv> 8943"      \<comment> \<open>U+22EF, midline horizontal ellipsis\<close>

text \<open>The ten numeral characters, one to ten, in the order of the source's dictionary.\<close>

definition cn_numerals :: "nat list" where
  "cn_numerals = [19968, 20108, 19977, 22235, 20116, 20845, 19971, 20843, 20061, 21313]"

definition is_cn_numeral :: "nat \<Rightarrow> bool" where
  "is_cn_numeral c = (c \<in> set cn_numerals)"

text \<open>
  Whitespace as \<open>\s\<close> and \<open>str.strip\<close> see it on a \<open>str\<close>: the code points for
  which CPython's \<open>Py_UNICODE_ISSPACE\<close> holds.
\<close>

definition is_space :: "nat \<Rightarrow> bool" where
  "is_space c =
     ((9 \<le> c \<and> c \<le> 13) \<or> (28 \<le> c \<and> c \<le> 32) \<or> c = 133 \<or> c = 160 \<or> c = 5760
      \<or> (8192 \<le> c \<and> c \<le> 8202) \<or> c = 8232 \<or> c = 8233 \<or> c = 8239 \<or> c = 8287
      \<or> c = 12288)"

text \<open>
  \<open>find_first p s\<close> is the least offset \<open>i\<close> at which \<open>p\<close> holds of the rest
  \<open>drop i s\<close> of the string: the start of the leftmost match of a pattern whose
  matches at a position are recognised by \<open>p\<close>.
\<close>

fun find_first :: "('a list \<Rightarrow> bool) \<Rightarrow> 'a list \<Rightarrow> nat option" where
  "find_first p [] = (if p [] then Some 0 else None)"
| "find_first p (c # cs) =
     (if p (c # cs) then Some 0 else map_option Suc (find_first p cs))"

section \<open>Numeral codec\<close>

text \<open>
  \<open>_get_chinese_number_maps\<close>: two dictionaries. The keys of the first and the values
  of the second are strings.
\<close>

definition char_to_int_map :: "ustring \<rightharpoonup> int" where
  "char_to_int_map =
     map_of [([19968], 1), ([20108], 2), ([19977], 3), ([22235], 4), ([20116], 5),
             ([20845], 6), ([19971], 7), ([20843], 8), ([20061], 9), ([21313], 10)]"

definition int_to_char_map :: "int \<rightharpoonup> ustring" where
  "int_to_char_map =
     map_of [(1, [19968]), (2, [20108]), (3, [19977]), (4, [22235]), (5, [20116]),
             (6, [20845]), (7, [19971]), (8, [20843]), (9, [20061]), (10, [21313]),
             (11, [21313, 19968]), (12, [21313, 20108])]"

section \<open>Keyword catalog\<close>

text \<open>The fourteen phrases of the default pattern, in the order of the source.\<close>

definition default_phrases :: "ustring list" where
  "default_phrases =
     [[33891, 20107, 20250, 25253, 21578],
      [33891, 20107, 20250, 25253, 21578, 19982, 31649, 29702, 35752, 35770],
      [20225, 19994, 36816, 33829, 19982, 31649, 29702, 35780, 36848],
      [32463, 33829, 24635, 32467, 19982, 20998, 26512],
      [31649, 29702, 23618, 35780, 20272, 19982, 26410, 26469, 23637, 26395],
      [33891, 20107, 23616, 25253, 21578],
      [31649, 29702, 23618, 35752, 35770, 19982, 20998, 26512],
      [32463, 33829, 24773, 20917, 35752, 35770, 19982, 20998, 26512],
      [32463, 33829, 19994, 32489, 20998, 26512],
      [19994, 21153, 22238, 39038, 19982, 23637, 26395],
      [20844, 21496, 32463, 33829, 20998, 26512],
      [31649, 29702, 23618, 35780, 35770, 19982, 20998, 26512],
      [25191, 34892, 25688, 35201, 19982, 19994, 21153, 22238, 39038],
      [19994, 21153, 36816, 33829, 20998, 26512]]"

fun join_bar :: "ustring list \<Rightarrow> ustring" where
  "join_bar [] = []"
| "join_bar [p] = p"
| "join_bar (p # q # ps) = p @ c_bar # join_bar (q # ps)"

definition default_keywords_pattern :: ustring where
  "default_keywords_pattern = join_bar default_phrases"

text \<open>\<open>_get_mda_keywords_pattern\<close>: \<open>not keywords_pattern\<close> holds of the empty string only.\<close>

definition get_mda_keywords_pattern :: "ustring \<Rightarrow> ustring" where
  "get_mda_keywords_pattern keywords_pattern =
     (if keywords_pattern = [] then default_keywords_pattern else keywords_pattern)"

section \<open>TOC locator\<close>

text \<open>
  The pattern \<open>\n\<mu>\s*\<lambda>\<close> of \<open>_get_toc_range\<close> (\<open>\<mu>\<close>, \<open>\<lambda>\<close> the two characters of
  "table of contents") matches at the head of \<open>s\<close> when \<open>s\<close> starts with a newline and
  \<open>\<mu>\<close>, and the first character after the following run of whitespace is \<open>\<lambda>\<close>. The
  run is taken whole: \<open>\<lambda>\<close> is not whitespace, so a shorter run never helps.
\<close>

fun toc_marker_here :: "ustring \<Rightarrow> bool" where
  "toc_marker_here (a # b # rest) =
     (a = c_nl \<and> b = c_mu \<and>
      (case dropWhile is_space rest of [] \<Rightarrow> False | c # _ \<Rightarrow> c = c_lu))"
| "toc_marker_here _ = False"

text \<open>
  \<open>_get_toc_range\<close>: the start of the first match and 2000 more, or \<open>(0, 2500)\<close> when
  indexing the empty list of matches raises the IndexError that the function catches.
\<close>

definition get_toc_range :: "ustring \<Rightarrow> nat \<times> nat" where
  "get_toc_range text =
     (case find_first toc_marker_here text of
        Some toc_start_index \<Rightarrow> (toc_start_index, toc_start_index + 2000)
      | None \<Rightarrow> (0, 2500))"

text \<open>
  The marker as the specification words it: at offset \<open>k\<close> a newline, the first
  character, any number of whitespace characters, the second character.
\<close>

definition toc_marker_at :: "ustring \<Rightarrow> nat \<Rightarrow> bool" where
  "toc_marker_at text k =
     (\<exists>n. k + 2 + n < length text \<and> text ! k = c_nl \<and> text ! (k + 1) = c_mu \<and>
          (\<forall>j<n. is_space (text ! (k + 2 + j))) \<and> text ! (k + 2 + n) = c_lu)"

section \<open>Python primitives\<close>

text \<open>
  \<open>s[a:b]\<close> with the bounds Python allows: a negative bound counts from the end, and
  both are clamped to the string. The windows \<open>text[start - 10 : start + 10]\<close> of the
  source reach a negative lower bound when a match starts near the beginning.
\<close>

definition py_slice :: "'a list \<Rightarrow> int \<Rightarrow> int \<Rightarrow> 'a list" where
  "py_slice xs a b =
     (let n = int (length xs);
          lo = (if a < 0 then max 0 (a + n) else min a n);
          hi = (if b < 0 then max 0 (b + n) else min b n)
      in take (nat hi - nat lo) (drop (nat lo) xs))"

text \<open>\<open>s.replace('\n', '')\<close>, \<open>s.rstrip()\<close> and \<open>s.strip()\<close>.\<close>

definition strip_nl :: "ustring \<Rightarrow> ustring" where
  "strip_nl s = filter (\<lambda>c. c \<noteq> c_nl) s"

definition rstrip :: "ustring \<Rightarrow> ustring" where
  "rstrip s = rev (dropWhile is_space (rev s))"

definition strip :: "ustring \<Rightarrow> ustring" where
  "strip s = rstrip (dropWhile is_space s)"

text \<open>
  Splitting at the non-overlapping matches, left to right, of a pattern whose every
  match has width \<open>w\<close> and is recognised at the head of a string by \<open>p\<close>; and the list
  of those matches. A match of width \<open>w\<close> lies inside the string, which the guard
  records.
\<close>

function split_on :: "('a list \<Rightarrow> bool) \<Rightarrow> nat \<Rightarrow> 'a list \<Rightarrow> 'a list list" where
  "split_on p w s =
     (case find_first p s of
        None \<Rightarrow> [s]
      | Some i \<Rightarrow>
          if 0 < w \<and> i + w \<le> length s
          then take i s # split_on p w (drop (i + w) s)
          else [s])"
  by pat_completeness auto
termination
  by (relation "measure (\<lambda>(p, w, s). length s)") auto

declare split_on.simps [simp del]

function findall_on :: "('a list \<Rightarrow> bool) \<Rightarrow> nat \<Rightarrow> 'a list \<Rightarrow> 'a list list" where
  "findall_on p w s =
     (case find_first p s of
        None \<Rightarrow> []
      | Some i \<Rightarrow>
          if 0 < w \<and> i + w \<le> length s
          then take w (drop i s) # findall_on p w (drop (i + w) s)
          else [])"
  by pat_completeness auto
termination
  by (relation "measure (\<lambda>(p, w, s). length s)") auto

declare findall_on.simps [simp del]

text \<open>\<open>s.split(sep)\<close>: an empty separator raises ValueError.\<close>

definition py_split :: "ustring \<Rightarrow> ustring \<Rightarrow> error + ustring list" where
  "py_split sep s =
     (if sep = [] then Inl ValueError else Inr (split_on (prefix sep) (length sep) s))"

text \<open>\<open>re.split(r'\s', s)\<close>: every whitespace character separates.\<close>

definition space_here :: "ustring \<Rightarrow> bool" where
  "space_here s = (case s of [] \<Rightarrow> False | c # _ \<Rightarrow> is_space c)"

definition split_ws :: "ustring \<Rightarrow> ustring list" where
  "split_ws s = split_on space_here 1 s"

text \<open>\<open>a, b = xs\<close>: anything but two elements raises ValueError.\<close>

definition unpack2 :: "'a list \<Rightarrow> error + 'a \<times> 'a" where
  "unpack2 xs = (case xs of [a, b] \<Rightarrow> Inr (a, b) | _ \<Rightarrow> Inl ValueError)"

text \<open>\<open>xs[i]\<close> for an index that is not negative, \<open>xs[-1]\<close>, and \<open>d[k]\<close>.\<close>

definition py_index :: "'a list \<Rightarrow> nat \<Rightarrow> error + 'a" where
  "py_index xs i = (if i < length xs then Inr (xs ! i) else Inl IndexError)"

definition py_last :: "'a list \<Rightarrow> error + 'a" where
  "py_last xs = (if xs = [] then Inl IndexError else Inr (last xs))"

definition lookup :: "('k \<rightharpoonup> 'v) \<Rightarrow> 'k \<Rightarrow> error + 'v" where
  "lookup d k = (case d k of None \<Rightarrow> Inl KeyError | Some v \<Rightarrow> Inr v)"

text \<open>Sequencing of steps that may raise, and \<open>try: ... except Exception: ...\<close>.\<close>

definition ebind :: "error + 'a \<Rightarrow> ('a \<Rightarrow> error + 'b) \<Rightarrow> error + 'b" where
  "ebind m f = (case m of Inl e \<Rightarrow> Inl e | Inr x \<Rightarrow> f x)"

definition try_except :: "error + 'a \<Rightarrow> error + 'a \<Rightarrow> error + 'a" where
  "try_except body handler = (case body of Inl e \<Rightarrow> handler | Inr x \<Rightarrow> Inr x)"

text \<open>
  \<open>re.findall('[...]+', s)\<close> for the class of the ten numerals: the maximal runs of
  numeral characters, left to right. The first argument is the run being read, reversed.
\<close>

fun numeral_runs_from :: "ustring \<Rightarrow> ustring \<Rightarrow> ustring list" where
  "numeral_runs_from cur [] = (if cur = [] then [] else [rev cur])"
| "numeral_runs_from cur (c # cs) =
     (if is_cn_numeral c then numeral_runs_from (c # cur) cs
      else (if cur = [] then [] else [rev cur]) @ numeral_runs_from [] cs)"

definition numeral_runs :: "ustring \<Rightarrow> ustring list" where
  "numeral_runs s = numeral_runs_from [] s"

text \<open>
  \<open>Counter(xs).most_common(1)[0][0]\<close> for a list that is not empty: the element with
  the greatest count, the one met first among equals (a \<open>Counter\<close> iterates in the order
  of first insertion, and \<open>max\<close> keeps the first greatest element).
\<close>

definition first_occurrences :: "'a list \<Rightarrow> 'a list" where
  "first_occurrences xs = rev (remdups (rev xs))"

definition most_common :: "'a list \<Rightarrow> 'a" where
  "most_common xs =
     (let ks = first_occurrences xs
      in fold (\<lambda>k best. if count_list xs best < count_list xs k then k else best)
           (tl ks) (hd ks))"

section \<open>The regular-expression engine and the digit table\<close>

text \<open>
  The patterns that the source builds at run time (the keyword pattern, which the caller
  may supply, the header pattern built from it, and the title fragments cut from the
  document) go to Python's \<open>re\<close> module, which is no part of the repository. The model
  takes the engine as a parameter: \<open>re_finditer rt pat s\<close> is the list of matches of
  \<open>re.finditer(pat, s)\<close> in order, each with its start, its text (group 0) and the text
  of its capture groups, or \<open>RegexError\<close> when \<open>pat\<close> does not compile. The table of
  decimal digits behind \<open>\d\<close> belongs to the Unicode database of the interpreter and is
  a parameter as well.
\<close>

record rmatch =
  m_start :: nat
  m_text :: ustring
  m_groups :: "ustring list"

record py_runtime =
  re_finditer :: "ustring \<Rightarrow> ustring \<Rightarrow> error + rmatch list"
  is_decimal :: "nat \<Rightarrow> bool"

text \<open>
  \<open>re.findall\<close> returns, for each match, the whole match when the pattern has no group,
  the group when it has one, and the tuple of the groups otherwise.
\<close>

datatype fitem = FStr ustring | FTuple "ustring list"

definition findall_item :: "rmatch \<Rightarrow> fitem" where
  "findall_item m =
     (case m_groups m of [] \<Rightarrow> FStr (m_text m) | [g] \<Rightarrow> FStr g | gs \<Rightarrow> FTuple gs)"

definition re_findall :: "py_runtime \<Rightarrow> ustring \<Rightarrow> ustring \<Rightarrow> error + fitem list" where
  "re_findall rt pat s = ebind (re_finditer rt pat s) (\<lambda>ms. Inr (map findall_item ms))"

text \<open>Whether \<open>pat\<close> matches somewhere in \<open>s\<close>: the truth value of \<open>re.findall(pat, s)\<close>
  and of \<open>re.search(pat, s)\<close>.\<close>

definition re_found :: "py_runtime \<Rightarrow> ustring \<Rightarrow> ustring \<Rightarrow> error + bool" where
  "re_found rt pat s = ebind (re_finditer rt pat s) (\<lambda>ms. Inr (ms \<noteq> []))"

text \<open>\<open>[r.replace('\n', '') for r in items]\<close>: a tuple has no \<open>replace\<close>.\<close>

fun replace_nl_all :: "fitem list \<Rightarrow> error + ustring list" where
  "replace_nl_all [] = Inr []"
| "replace_nl_all (FStr s # items) =
     ebind (replace_nl_all items) (\<lambda>rs. Inr (strip_nl s # rs))"
| "replace_nl_all (FTuple gs # items) = Inl AttributeError"

section \<open>TOC-based extractor\<close>

text \<open>
  The section-marker pattern of lines 116 and 120: newline, the ordinal prefix, one
  numeral, and one character of the class \<open>[J|Z]\<close>, which holds "section", "chapter"
  and the vertical bar. Every match is four characters wide.
\<close>

definition section_marker_here :: "ustring \<Rightarrow> bool" where
  "section_marker_here s =
     (case s of
        a # b # c # d # _ \<Rightarrow>
          a = c_nl \<and> b = c_di \<and> is_cn_numeral c \<and> (d = c_jie \<or> d = c_bar \<or> d = c_zhang)
      | _ \<Rightarrow> False)"

text \<open>Line 117: \<open>re.sub(r'\d+|\.', '', title).strip()\<close> removes every digit and every dot.\<close>

definition clean_title :: "py_runtime \<Rightarrow> ustring \<Rightarrow> ustring" where
  "clean_title rt title = strip (filter (\<lambda>c. \<not> is_decimal rt c \<and> c \<noteq> c_dot) title)"

definition toc_section_titles :: "py_runtime \<Rightarrow> ustring \<Rightarrow> ustring list" where
  "toc_section_titles rt toc_text =
     map (clean_title rt) (tl (split_on section_marker_here 4 toc_text))"

definition toc_section_markers :: "ustring \<Rightarrow> ustring list" where
  "toc_section_markers toc_text = findall_on section_marker_here 4 toc_text"

text \<open>
  Lines 133 and 136: \<open>re.sub(r'\d+|\. E', '', title).rstrip()\<close>, \<open>E\<close> the ellipsis
  character: every run of digits goes, and every dot followed by a space and \<open>E\<close>.
\<close>

fun sub_digits_dots :: "(nat \<Rightarrow> bool) \<Rightarrow> ustring \<Rightarrow> ustring" where
  "sub_digits_dots dec [] = []"
| "sub_digits_dots dec (c # cs) =
     (if dec c then sub_digits_dots dec cs
      else if c = c_dot \<and> take 2 cs = [c_sp, c_ell] then sub_digits_dots dec (drop 2 cs)
      else c # sub_digits_dots dec cs)"

definition title_mask :: "py_runtime \<Rightarrow> ustring \<Rightarrow> ustring" where
  "title_mask rt section_title = rstrip (sub_digits_dots (is_decimal rt) section_title)"

text \<open>Lines 131 and 135: \<open>markers[i].replace('\n', '') + titles[i]\<close>.\<close>

definition section_title :: "ustring list \<Rightarrow> ustring list \<Rightarrow> nat \<Rightarrow> error + ustring" where
  "section_title markers titles i =
     ebind (py_index markers i) (\<lambda>m. ebind (py_index titles i) (\<lambda>t. Inr (strip_nl m @ t)))"

text \<open>
  Line 128: \<open>str.contains\<close> tests every title with \<open>re.search\<close>; \<open>.index[0]\<close> is the
  position of the first title that matches and raises IndexError when none does.
\<close>

fun str_contains :: "py_runtime \<Rightarrow> ustring \<Rightarrow> ustring list \<Rightarrow> error + bool list" where
  "str_contains rt pat [] = Inr []"
| "str_contains rt pat (t # ts) =
     ebind (re_found rt pat t) (\<lambda>b. ebind (str_contains rt pat ts) (\<lambda>bs. Inr (b # bs)))"

fun first_true :: "bool list \<Rightarrow> nat option" where
  "first_true [] = None"
| "first_true (b # bs) = (if b then Some 0 else map_option Suc (first_true bs))"

definition mda_toc_index :: "py_runtime \<Rightarrow> ustring \<Rightarrow> ustring list \<Rightarrow> error + nat" where
  "mda_toc_index rt pat titles =
     ebind (str_contains rt pat titles)
       (\<lambda>flags. case first_true flags of None \<Rightarrow> Inl IndexError | Some i \<Rightarrow> Inr i)"

text \<open>
  Lines 143 to 147: the first candidate start with the first title fragment inside the
  window of fifty characters on either side; \<open>None\<close> when the loop ends without binding
  \<open>mda_start_index\<close>.
\<close>

definition window50 :: "ustring \<Rightarrow> nat \<Rightarrow> ustring" where
  "window50 body pos = py_slice body (int pos - 50) (int pos + 50)"

fun confirmed_start :: "py_runtime \<Rightarrow> ustring \<Rightarrow> ustring \<Rightarrow> nat list \<Rightarrow> error + nat option" where
  "confirmed_start rt part1 body [] = Inr None"
| "confirmed_start rt part1 body (start_pos # rest) =
     ebind (re_found rt part1 (window50 body start_pos))
       (\<lambda>near. if near then Inr (Some start_pos) else confirmed_start rt part1 body rest)"

text \<open>
  Lines 151 to 157: the same for the end, which must lie after the start; comparing
  with a start that was never bound raises UnboundLocalError.
\<close>

fun confirmed_end ::
  "py_runtime \<Rightarrow> ustring \<Rightarrow> ustring \<Rightarrow> nat option \<Rightarrow> nat list \<Rightarrow> error + nat option" where
  "confirmed_end rt part1 body mda_start_index [] = Inr None"
| "confirmed_end rt part1 body mda_start_index (end_pos # rest) =
     ebind (re_found rt part1 (window50 body end_pos))
       (\<lambda>near.
          if near then
            (case mda_start_index of
               None \<Rightarrow> Inl UnboundLocalError
             | Some s \<Rightarrow>
                 if s < end_pos then Inr (Some end_pos)
                 else confirmed_end rt part1 body mda_start_index rest)
          else confirmed_end rt part1 body mda_start_index rest)"

text \<open>Lines 141 to 160, the body of the \<open>try\<close>; \<open>body\<close> is \<open>text[toc_end_index:]\<close>.\<close>

definition toc_proximity :: "py_runtime \<Rightarrow> ustring \<Rightarrow> ustring \<Rightarrow> ustring \<Rightarrow> error + ustring" where
  "toc_proximity rt body mda_title_mask next_title_mask =
     ebind (unpack2 (split_ws mda_title_mask)) (\<lambda>(title_part1, title_part2).
     ebind (re_finditer rt title_part2 body) (\<lambda>starts.
     ebind (confirmed_start rt title_part1 body (map m_start starts)) (\<lambda>mda_start_index.
     ebind (unpack2 (split_ws next_title_mask)) (\<lambda>(next_title_part1, next_title_part2).
     ebind (re_finditer rt next_title_part2 body) (\<lambda>ends.
     ebind (confirmed_end rt next_title_part1 body mda_start_index (map m_start ends))
       (\<lambda>mda_end_index.
          case (mda_start_index, mda_end_index) of
            (Some s, Some e) \<Rightarrow> Inr (py_slice body (int s) (int e))
          | _ \<Rightarrow> Inl UnboundLocalError))))))"

text \<open>Lines 165 and 166, the handler of the \<open>try\<close>.\<close>

definition toc_naive :: "ustring \<Rightarrow> ustring \<Rightarrow> ustring \<Rightarrow> error + ustring" where
  "toc_naive body mda_title_mask next_title_mask =
     ebind (py_split mda_title_mask body) (\<lambda>pieces.
     ebind (py_split next_title_mask (mda_title_mask @ last pieces)) (\<lambda>parts.
       Inr (hd parts)))"

text \<open>
  The header pattern of lines 186 and 231, a raw string of 44 characters: backslash
  \<open>n\<close>, the class of the ordinal prefix starred, the class of the ten numerals with
  \<open>{1,}\<close>, the class \<open>[J|Z]\<close> starred, and the class of the eight separators (comma,
  fullwidth comma, colon, fullwidth colon, ideographic comma, dot, space, backslash
  \<open>t\<close>) with \<open>{1,5}\<close>. The keyword pattern is appended to it as text.
\<close>

definition mda_header_prefix :: ustring where
  "mda_header_prefix =
     [92, 110, 91, 31532, 93, 42,
      91, 19968, 20108, 19977, 22235, 20116, 20845, 19971, 20843, 20061, 21313, 93,
      123, 49, 44, 125,
      91, 33410, 124, 31456, 93, 42,
      91, 44, 65292, 58, 65306, 12289, 46, 32, 92, 116, 93, 123, 49, 44, 53, 125]"

text \<open>Lines 174 to 178 and 220 to 223: the numeral runs in the window around each match.\<close>

definition numbers_near :: "ustring \<Rightarrow> rmatch list \<Rightarrow> ustring list" where
  "numbers_near text ms =
     concat (map (\<lambda>m. numeral_runs
                         (py_slice text (int (m_start m) - 10) (int (m_start m) + 10))) ms)"

text \<open>
  Lines 190 and 236: \<open>re.sub\<close> with the class of the code points U+4E00 to U+9FA5,
  one or more, replaced by the empty string.
\<close>

definition header_separator :: "ustring \<Rightarrow> ustring" where
  "header_separator header = filter (\<lambda>c. \<not> (19968 \<le> c \<and> c \<le> 40869)) header"

text \<open>Lines 170 to 199: the branch taken when the TOC gave no titles or no markers.\<close>

definition toc_numeral_fallback :: "py_runtime \<Rightarrow> ustring \<Rightarrow> ustring \<Rightarrow> error + ustring" where
  "toc_numeral_fallback rt text mda_keywords_pattern =
     ebind (re_finditer rt mda_keywords_pattern text) (\<lambda>ms.
       let numbers_found = numbers_near text ms in
       if numbers_found \<noteq> [] then
         let most_common_section_num_char = most_common numbers_found in
         ebind (re_findall rt (mda_header_prefix @ mda_keywords_pattern) text) (\<lambda>items.
         ebind (replace_nl_all items) (\<lambda>headers.
         ebind (py_last headers) (\<lambda>mda_header_full_match.
           let header_sep = header_separator mda_header_full_match in
         ebind (lookup char_to_int_map most_common_section_num_char) (\<lambda>n.
         ebind (lookup int_to_char_map (n + 1)) (\<lambda>next_numeral.
           let next_section_header = c_nl # next_numeral @ header_sep in
         ebind (py_split mda_header_full_match text) (\<lambda>pieces.
         ebind (py_split next_section_header (last pieces)) (\<lambda>parts.
           Inr (hd parts))))))))
       else Inr [])"

text \<open>\<open>_extract_mda_via_toc\<close>.\<close>

definition extract_mda_via_toc :: "py_runtime \<Rightarrow> ustring \<Rightarrow> ustring \<Rightarrow> error + ustring" where
  "extract_mda_via_toc rt text keywords_pattern =
     (let (toc_start_index, toc_end_index) = get_toc_range text;
          mda_keywords_pattern = get_mda_keywords_pattern keywords_pattern;
          toc_text = py_slice text (int toc_start_index) (int toc_end_index);
          titles = toc_section_titles rt toc_text;
          markers = toc_section_markers toc_text
      in if titles \<noteq> [] \<and> markers \<noteq> [] then
           ebind (mda_toc_index rt mda_keywords_pattern titles) (\<lambda>i.
           ebind (section_title markers titles i) (\<lambda>mda_section_title.
           ebind (section_title markers titles (i + 1)) (\<lambda>next_section_title.
             let mda_title_mask = title_mask rt mda_section_title;
                 next_title_mask = title_mask rt next_section_title;
                 body = drop toc_end_index text
             in try_except (toc_proximity rt body mda_title_mask next_title_mask)
                  (toc_naive body mda_title_mask next_title_mask))))
         else toc_numeral_fallback rt text mda_keywords_pattern)"

section \<open>Keyword-search extractor\<close>

text \<open>\<open>_extract_mda_via_keyword_search\<close>.\<close>

definition extract_mda_via_keyword_search ::
  "py_runtime \<Rightarrow> ustring \<Rightarrow> ustring \<Rightarrow> error + ustring" where
  "extract_mda_via_keyword_search rt text keywords_pattern =
     (let mda_keywords_pattern = get_mda_keywords_pattern keywords_pattern in
      ebind (re_finditer rt mda_keywords_pattern text) (\<lambda>ms.
        let numbers_found = numbers_near text ms in
        if numbers_found \<noteq> [] then
          let most_common_section_num_char = most_common numbers_found in
          ebind (re_findall rt (mda_header_prefix @ mda_keywords_pattern) text) (\<lambda>items.
          ebind (replace_nl_all items) (\<lambda>headers.
          ebind (py_last headers) (\<lambda>mda_header_full_match.
            let header_sep = header_separator mda_header_full_match in
          ebind (lookup char_to_int_map most_common_section_num_char) (\<lambda>n.
          ebind (lookup int_to_char_map (n + 1)) (\<lambda>next_numeral.
            let next_section_header_pattern = c_nl # next_numeral @ header_sep in
          ebind (py_split mda_header_full_match text) (\<lambda>pieces.
          ebind (py_split next_section_header_pattern (last pieces)) (\<lambda>parts.
            Inr (mda_header_full_match @ hd parts))))))))
        else Inr []))"

section \<open>Orchestrator\<close>

text \<open>\<open>extract_mda\<close>: two nested \<open>try\<close> statements, each catching every \<open>Exception\<close>.\<close>

definition extract_mda :: "py_runtime \<Rightarrow> ustring \<Rightarrow> ustring \<Rightarrow> error + ustring" where
  "extract_mda rt text keywords_pattern =
     try_except (extract_mda_via_toc rt text keywords_pattern)
       (try_except (extract_mda_via_keyword_search rt text keywords_pattern) (Inr []))"

section \<open>A regular-expression engine for literal alternatives\<close>

text \<open>
  For evaluation on concrete documents: Python's matching for the patterns that are
  alternatives, separated by vertical bars, of literal texts without metacharacters,
  the first alternative possibly preceded by the header pattern above. Alternation
  binds weakest, so the header pattern belongs to the first alternative only. At each
  position the alternatives are tried in order; the scan resumes behind a match. Such
  patterns have no capture groups. Other patterns are outside this engine, which
  rejects them; the closed theorems below use it on patterns of this form only.
\<close>

definition is_meta :: "nat \<Rightarrow> bool" where
  \<comment> \<open>the characters \<open>. ^ $ * + ? { } [ ] \ | ( )\<close>\<close>
  "is_meta c = (c \<in> set [46, 94, 36, 42, 43, 63, 123, 125, 91, 93, 92, 124, 40, 41])"

definition is_header_sep :: "nat \<Rightarrow> bool" where
  "is_header_sep c = (c \<in> set [44, 65292, 58, 65306, 12289, 46, 32, 9])"

definition bar_here :: "ustring \<Rightarrow> bool" where
  "bar_here s = (case s of [] \<Rightarrow> False | c # _ \<Rightarrow> c = c_bar)"

datatype branch = Lit ustring | Hdr ustring

definition parse_alternatives :: "ustring \<Rightarrow> branch list option" where
  "parse_alternatives pat =
     (let hdr = prefix mda_header_prefix pat;
          alts = split_on bar_here 1 (if hdr then drop (length mda_header_prefix) pat else pat)
      in if list_all (\<lambda>a. a \<noteq> [] \<and> list_all (\<lambda>c. \<not> is_meta c) a) alts
         then Some (if hdr then Hdr (hd alts) # map Lit (tl alts) else map Lit alts)
         else None)"

text \<open>
  After \<open>k\<close> separators at most, the literal: the greedy \<open>{1,5}\<close> gives characters
  back one at a time, down to one separator.
\<close>

fun seps_then :: "nat \<Rightarrow> ustring \<Rightarrow> ustring \<Rightarrow> nat option" where
  "seps_then 0 lit s = None"
| "seps_then (Suc k) lit s =
     (if prefix lit (drop (Suc k) s) then Some (Suc k + length lit) else seps_then k lit s)"

text \<open>
  The width of the match of the header pattern followed by \<open>lit\<close> at the head of \<open>s\<close>.
  The classes of the pattern are pairwise disjoint, so each starred class takes its
  whole run; only the separators, which the literal may start with, are given back.
\<close>

definition match_header :: "ustring \<Rightarrow> ustring \<Rightarrow> nat option" where
  "match_header lit s =
     (case s of
        [] \<Rightarrow> None
      | c # r \<Rightarrow>
          if c \<noteq> c_nl then None
          else
            let r1 = dropWhile (\<lambda>c. c = c_di) r;
                r2 = dropWhile is_cn_numeral r1;
                r3 = dropWhile (\<lambda>c. c = c_jie \<or> c = c_bar \<or> c = c_zhang) r2;
                k = min 5 (length (takeWhile is_header_sep r3))
            in if length r2 = length r1 then None
               else map_option (\<lambda>n. length s - length r3 + n) (seps_then k lit r3))"

fun match_branch :: "branch \<Rightarrow> ustring \<Rightarrow> nat option" where
  "match_branch (Lit lit) s = (if prefix lit s then Some (length lit) else None)"
| "match_branch (Hdr lit) s = match_header lit s"

fun match_first :: "branch list \<Rightarrow> ustring \<Rightarrow> nat option" where
  "match_first [] s = None"
| "match_first (b # bs) s =
     (case match_branch b s of Some n \<Rightarrow> Some n | None \<Rightarrow> match_first bs s)"

function scan_matches :: "(ustring \<Rightarrow> nat option) \<Rightarrow> nat \<Rightarrow> ustring \<Rightarrow> rmatch list" where
  "scan_matches m off s =
     (if s = [] then []
      else case m s of
             None \<Rightarrow> scan_matches m (Suc off) (tl s)
           | Some n \<Rightarrow>
               if 0 < n \<and> n \<le> length s
               then \<lparr>m_start = off, m_text = take n s, m_groups = []\<rparr>
                    # scan_matches m (off + n) (drop n s)
               else scan_matches m (Suc off) (tl s))"
  by pat_completeness auto
termination
  by (relation "measure (\<lambda>(m, off, s). length s)") auto

declare scan_matches.simps [simp del]

definition re_alternatives :: "ustring \<Rightarrow> ustring \<Rightarrow> error + rmatch list" where
  "re_alternatives pat s =
     (case parse_alternatives pat of
        None \<Rightarrow> Inl RegexError
      | Some bs \<Rightarrow> Inr (scan_matches (match_first bs) 0 s))"

text \<open>The runtime of the closed theorems; its digits are the ASCII digits.\<close>

definition rt0 :: py_runtime where
  "rt0 = \<lparr>re_finditer = re_alternatives, is_decimal = (\<lambda>c. 48 \<le> c \<and> c \<le> 57)\<rparr>"

section \<open>Names for the intermediate values\<close>

text \<open>
  The values the statements below speak about, under the names the source gives them:
  the text of the TOC range (line 112), the keyword pattern in use, whether the scan of
  lines 220 to 223 collected a numeral run, and the header literal of line 233.
\<close>

definition toc_text :: "ustring \<Rightarrow> ustring" where
  "toc_text text =
     (let (toc_start_index, toc_end_index) = get_toc_range text
      in py_slice text (int toc_start_index) (int toc_end_index))"

definition toc_titles :: "py_runtime \<Rightarrow> ustring \<Rightarrow> ustring list" where
  "toc_titles rt text = toc_section_titles rt (toc_text text)"

definition toc_markers :: "ustring \<Rightarrow> ustring list" where
  "toc_markers text = toc_section_markers (toc_text text)"

definition numerals_found :: "py_runtime \<Rightarrow> ustring \<Rightarrow> ustring \<Rightarrow> bool" where
  "numerals_found rt text pat =
     (case re_finditer rt pat text of Inl e \<Rightarrow> False | Inr ms \<Rightarrow> numbers_near text ms \<noteq> [])"

definition mda_header_literal :: "py_runtime \<Rightarrow> ustring \<Rightarrow> ustring \<Rightarrow> ustring" where
  "mda_header_literal rt text pat =
     (case re_findall rt (mda_header_prefix @ pat) text of
        Inl e \<Rightarrow> []
      | Inr items \<Rightarrow>
          (case replace_nl_all items of
             Inl e \<Rightarrow> []
           | Inr headers \<Rightarrow> if headers = [] then [] else last headers))"

text \<open>The next-section header of line 241, and the MD&A title mask of line 133.\<close>

definition next_header_literal :: "py_runtime \<Rightarrow> ustring \<Rightarrow> ustring \<Rightarrow> ustring" where
  "next_header_literal rt text pat =
     (case re_finditer rt pat text of
        Inl e \<Rightarrow> []
      | Inr ms \<Rightarrow>
          (case char_to_int_map (most_common (numbers_near text ms)) of
             None \<Rightarrow> []
           | Some n \<Rightarrow>
               (case int_to_char_map (n + 1) of
                  None \<Rightarrow> []
                | Some next_numeral \<Rightarrow>
                    c_nl # next_numeral @ header_separator (mda_header_literal rt text pat))))"

definition toc_mda_title_mask :: "py_runtime \<Rightarrow> ustring \<Rightarrow> ustring \<Rightarrow> ustring" where
  "toc_mda_title_mask rt text pat =
     (case mda_toc_index rt pat (toc_titles rt text) of
        Inl e \<Rightarrow> []
      | Inr i \<Rightarrow>
          (case section_title (toc_markers text) (toc_titles rt text) i of
             Inl e \<Rightarrow> []
           | Inr mda_section_title \<Rightarrow> title_mask rt mda_section_title))"

text \<open>A string cut at the first occurrence of a separator, whole when there is none.\<close>

definition truncate_at :: "ustring \<Rightarrow> ustring \<Rightarrow> ustring" where
  "truncate_at sep s = (case find_first (prefix sep) s of None \<Rightarrow> s | Some i \<Rightarrow> take i s)"

section \<open>Concrete documents\<close>

text \<open>
  Two characters, then the TOC marker with two spaces inside it at offset 2, then a
  second marker without spaces.
\<close>

definition doc_two_markers :: ustring where
  "doc_two_markers = [97, 98, 10, 30446, 32, 32, 24405, 10, 30446, 24405]"

text \<open>
  A single TOC entry, "section one" directly followed by the first catalog phrase, a
  space and the numeral one. The keyword entry is the last entry, and no header with
  a separator before the phrase exists.
\<close>

definition doc_single_entry :: ustring where
  "doc_single_entry = [10, 31532, 19968, 33410, 33891, 20107, 20250, 25253, 21578, 32, 19968]"

text \<open>
  Two TOC entries, "section one X" and "section two" with the first catalog phrase:
  the keyword entry is the last one.
\<close>

definition doc_last_entry :: ustring where
  "doc_last_entry =
     [10, 31532, 19968, 33410, 32, 88, 10, 31532, 20108, 33410, 32, 33891, 20107,
      20250, 25253, 21578]"



text \<open>
  No section markers: a newline, "three", an ideographic comma, the first catalog
  phrase, \<open>X\<close>, a newline, "four", an ideographic comma, \<open>Y\<close>.
\<close>

definition doc_numbered_header :: ustring where
  "doc_numbered_header = [10, 19977, 12289, 33891, 20107, 20250, 25253, 21578, 88, 10, 22235, 12289, 89]"

text \<open>
  A keyword pattern of the caller's with a newline inside, "discussion", newline,
  "analysis", and a document whose header line holds it.
\<close>

definition pattern_with_newline :: ustring where
  "pattern_with_newline = [35752, 35770, 10, 20998, 26512]"

definition doc_newline_keyword :: ustring where
  "doc_newline_keyword =
     [65, 66, 67, 68, 69, 70, 71, 72, 73, 74, 10, 19977, 12289, 35752, 35770, 10,
      20998, 26512, 66, 10, 22235, 12289, 67]"

text \<open>
  A short document: two TOC entries, "section one" with the first catalog phrase and
  "section two X", each with a space after the marker, and nothing after them.
\<close>

definition doc_short_toc :: ustring where
  "doc_short_toc =
     [10, 31532, 19968, 33410, 32, 33891, 20107, 20250, 25253, 21578, 10, 31532,
      20108, 33410, 32, 88]"

text \<open>
  A document with a well-formed TOC: the TOC marker and the four entries "section one"
  to "section four", each marker followed by a space and its title; spaces up to offset
  2000, where the TOC range ends; then the body with the same four headers, each again
  with the space, and a line of text after each (\<open>A\<close>, \<open>B\<close>, \<open>MDA\<close>, \<open>GOV\<close>).
  The third title is the seventh catalog phrase. \<open>mda_mask\<close> is the third marker
  directly followed by its title, without the space.
\<close>

definition toc_part :: ustring where
  "toc_part =
     [10, 30446, 24405, 10, 31532, 19968, 33410, 32, 20844, 21496, 31616, 20171, 10,
      31532, 20108, 33410, 32, 20250, 35745, 25968, 25454, 25688, 35201, 10, 31532,
      19977, 33410, 32, 31649, 29702, 23618, 35752, 35770, 19982, 20998, 26512, 10,
      31532, 22235, 33410, 32, 20844, 21496, 27835, 29702, 10]"

definition body_part :: ustring where
  "body_part =
     [10, 31532, 19968, 33410, 32, 20844, 21496, 31616, 20171, 10, 65, 10, 31532,
      20108, 33410, 32, 20250, 35745, 25968, 25454, 25688, 35201, 10, 66, 10, 31532,
      19977, 33410, 32, 31649, 29702, 23618, 35752, 35770, 19982, 20998, 26512, 10,
      77, 68, 65, 10, 31532, 22235, 33410, 32, 20844, 21496, 27835, 29702, 10, 71,
      79, 86]"

definition doc_spaced :: ustring where
  "doc_spaced = toc_part @ replicate 1954 c_sp @ body_part"

definition mda_mask :: ustring where
  "mda_mask = [31532, 19977, 33410, 31649, 29702, 23618, 35752, 35770, 19982, 20998, 26512]"

section \<open>Properties of the scanning helpers\<close>

lemma find_first_Some_iff:
  "find_first p s = Some k \<longleftrightarrow> k \<le> length s \<and> p (drop k s) \<and> (\<forall>j<k. \<not> p (drop j s))"
proof (induction s arbitrary: k)
  case Nil
  then show ?case by auto
next
  case (Cons c cs)
  show ?case
  proof (cases "p (c # cs)")
    case True
    then show ?thesis by (cases k) auto
  next
    case False
    show ?thesis
    proof (cases k)
      case 0
      with False show ?thesis by simp
    next
      case (Suc k')
      have "(\<forall>j<Suc k'. \<not> p (drop j (c # cs))) \<longleftrightarrow> (\<forall>j<k'. \<not> p (drop j cs))"
        using False by (auto simp: less_Suc_eq_0_disj)
      with False Suc Cons.IH [of k'] show ?thesis by auto
    qed
  qed
qed

lemma find_first_None_iff:
  "find_first p s = None \<longleftrightarrow> (\<forall>j\<le>length s. \<not> p (drop j s))"
proof (induction s)
  case Nil
  then show ?case by simp
next
  case (Cons c cs)
  have "(\<forall>j\<le>Suc (length cs). \<not> p (drop j (c # cs))) \<longleftrightarrow>
        \<not> p (c # cs) \<and> (\<forall>j\<le>length cs. \<not> p (drop j cs))" (is "?L \<longleftrightarrow> ?R")
  proof
    assume l: ?L
    have "\<not> p (drop j cs)" if "j \<le> length cs" for j
      using l [rule_format, of "Suc j"] that by simp
    moreover have "\<not> p (c # cs)"
      using l [rule_format, of 0] by simp
    ultimately show ?R by simp
  next
    assume r: ?R
    show ?L
    proof (intro allI impI)
      fix j assume "j \<le> Suc (length cs)"
      then show "\<not> p (drop j (c # cs))"
        using r by (cases j) auto
    qed
  qed
  with Cons show ?case by auto
qed


section \<open>Evaluation on concrete documents\<close>

text \<open>The defining equations that the simplifier unfolds to run the model.\<close>

named_theorems eval_rules

lemmas [eval_rules] = get_toc_range_def py_slice_def toc_section_markers_def toc_section_titles_def
  findall_on.simps split_on.simps section_marker_here_def is_cn_numeral_def cn_numerals_def
  clean_title_def strip_def rstrip_def strip_nl_def is_space_def rt0_def py_split_def
  space_here_def split_ws_def unpack2_def py_index_def py_last_def lookup_def ebind_def
  try_except_def numeral_runs_def first_occurrences_def most_common_def findall_item_def
  re_findall_def re_found_def title_mask_def section_title_def mda_toc_index_def window50_def
  toc_proximity_def toc_naive_def numbers_near_def header_separator_def
  toc_numeral_fallback_def extract_mda_via_toc_def extract_mda_via_keyword_search_def
  extract_mda_def is_header_sep_def match_header_def scan_matches.simps re_alternatives_def
  get_mda_keywords_pattern_def char_to_int_map_def int_to_char_map_def Let_def

lemma parse_default_pattern:
  "parse_alternatives default_keywords_pattern = Some (map Lit default_phrases)"
  by (simp add: parse_alternatives_def default_keywords_pattern_def default_phrases_def
      mda_header_prefix_def split_on.simps bar_here_def is_meta_def)

lemma parse_default_header_pattern:
  "parse_alternatives (mda_header_prefix @ default_keywords_pattern) =
     Some (Hdr (hd default_phrases) # map Lit (tl default_phrases))"
  by (simp add: parse_alternatives_def default_keywords_pattern_def default_phrases_def
      split_on.simps bar_here_def is_meta_def)

lemmas [eval_rules] = parse_default_pattern parse_default_header_pattern default_phrases_def

section \<open>Numeral codec and keyword catalog\<close>

text \<open>
  C9. Decoding any of the ten numeral characters and encoding the result gives the
  character back, and 11 and 12 encode to the two-character composites "ten one" and
  "ten two".
\<close>

theorem codec_roundtrip:
  "(\<forall>c \<in> set cn_numerals. \<exists>n. char_to_int_map [c] = Some n \<and> int_to_char_map n = Some [c])
   \<and> int_to_char_map 11 = Some [21313, 19968]
   \<and> int_to_char_map 12 = Some [21313, 20108]"
  by (simp add: cn_numerals_def char_to_int_map_def int_to_char_map_def)

theorem codec_roundtrip_witness:
  "19977 \<in> set cn_numerals
   \<and> char_to_int_map [19977] = Some 3 \<and> int_to_char_map 3 = Some [19977]"
proof -
  have m: "19977 \<in> set cn_numerals"
    by (simp add: cn_numerals_def)
  from codec_roundtrip m
  obtain n where "char_to_int_map [19977] = Some n" "int_to_char_map n = Some [19977]"
    by blast
  moreover have "char_to_int_map [19977] = Some 3"
    by (simp add: char_to_int_map_def)
  ultimately show ?thesis using m by simp
qed

text \<open>
  C10. A pattern that is not empty is returned as it is; for the empty pattern the
  result is the fixed alternation of the fourteen catalog phrases. The function is a
  function of its argument alone.
\<close>

theorem keywords_pattern_catalog:
  "(keywords_pattern \<noteq> [] \<longrightarrow> get_mda_keywords_pattern keywords_pattern = keywords_pattern)
   \<and> get_mda_keywords_pattern [] = join_bar default_phrases
   \<and> length default_phrases = 14"
  by (simp add: get_mda_keywords_pattern_def default_keywords_pattern_def default_phrases_def)

theorem keywords_pattern_catalog_witness:
  "[97, 98] \<noteq> ([] :: ustring) \<and> get_mda_keywords_pattern [97, 98] = [97, 98]"
  using keywords_pattern_catalog [of "[97, 98]"] by simp

section \<open>TOC locator\<close>

lemma dropWhile_first_iff:
  assumes "\<not> P x"
  shows "(case dropWhile P xs of [] \<Rightarrow> False | c # _ \<Rightarrow> c = x) \<longleftrightarrow>
         (\<exists>n<length xs. (\<forall>j<n. P (xs ! j)) \<and> xs ! n = x)"
proof (induction xs)
  case Nil
  then show ?case by simp
next
  case (Cons a xs)
  show ?case
  proof (cases "P a")
    case True
    have "(\<exists>n<length (a # xs). (\<forall>j<n. P ((a # xs) ! j)) \<and> (a # xs) ! n = x) \<longleftrightarrow>
          (\<exists>n<length xs. (\<forall>j<n. P (xs ! j)) \<and> xs ! n = x)" (is "?L \<longleftrightarrow> ?R")
    proof
      assume ?L
      then obtain n where n: "n < length (a # xs)" "\<forall>j<n. P ((a # xs) ! j)" "(a # xs) ! n = x"
        by blast
      with True assms obtain m where m: "n = Suc m" by (cases n) auto
      have "\<forall>j<m. P (xs ! j)"
        using n(2) m by (metis Suc_less_eq nth_Cons_Suc)
      with n m show ?R by auto
    next
      assume ?R
      then obtain n where n: "n < length xs" "\<forall>j<n. P (xs ! j)" "xs ! n = x" by blast
      have "\<forall>j<Suc n. P ((a # xs) ! j)"
        using n(2) True by (auto simp: nth_Cons split: nat.splits)
      with n show ?L by (intro exI [of _ "Suc n"]) auto
    qed
    with True Cons show ?thesis by simp
  next
    case False
    have "(\<exists>n<length (a # xs). (\<forall>j<n. P ((a # xs) ! j)) \<and> (a # xs) ! n = x) \<longleftrightarrow> a = x"
    proof
      assume "\<exists>n<length (a # xs). (\<forall>j<n. P ((a # xs) ! j)) \<and> (a # xs) ! n = x"
      then obtain n where n: "\<forall>j<n. P ((a # xs) ! j)" "(a # xs) ! n = x" by blast
      with False have "n = 0" by (cases n) auto
      with n show "a = x" by simp
    next
      assume "a = x"
      then show "\<exists>n<length (a # xs). (\<forall>j<n. P ((a # xs) ! j)) \<and> (a # xs) ! n = x"
        by (intro exI [of _ 0]) simp
    qed
    with False show ?thesis by simp
  qed
qed


lemma nth_two_plus: "(a # b # rest) ! (2 + j) = rest ! j"
  by (simp add: numeral_2_eq_2)

lemma toc_marker_here_iff:
  "toc_marker_here s \<longleftrightarrow> toc_marker_at s 0"
proof (cases s)
  case Nil
  then show ?thesis by (simp add: toc_marker_at_def)
next
  case (Cons a s')
  note s = this
  show ?thesis
  proof (cases s')
    case Nil
    with s show ?thesis by (simp add: toc_marker_at_def)
  next
    case (Cons b rest)
    have nsp: "\<not> is_space c_lu" by (simp add: is_space_def)
    have len: "2 + n < length (a # b # rest) \<longleftrightarrow> n < length rest" for n
      by simp
    have "toc_marker_at (a # b # rest) 0 \<longleftrightarrow>
          a = c_nl \<and> b = c_mu \<and> (\<exists>n<length rest. (\<forall>j<n. is_space (rest ! j)) \<and> rest ! n = c_lu)"
      unfolding toc_marker_at_def add_0 len nth_two_plus by auto
    with s Cons dropWhile_first_iff [of is_space c_lu rest, OF nsp]
    show ?thesis by simp
  qed
qed

lemma toc_marker_at_drop:
  "toc_marker_at text k \<longleftrightarrow> k \<le> length text \<and> toc_marker_here (drop k text)"
proof (cases "k \<le> length text")
  case True
  have "k + 2 + n < length text \<longleftrightarrow> 2 + n < length text - k" for n
    using True by auto
  moreover have "k + (0 + 2 + j) = k + 2 + j" for j by simp
  moreover have "k + (0 + 1) = k + 1" by simp
  ultimately have "toc_marker_at (drop k text) 0 \<longleftrightarrow> toc_marker_at text k"
    using True unfolding toc_marker_at_def by (simp only: length_drop nth_drop add_0 add_0_right)
  with True show ?thesis by (simp add: toc_marker_here_iff)
next
  case False
  then show ?thesis by (auto simp: toc_marker_at_def)
qed


text \<open>
  C8. The locator is total. When \<open>k\<close> is the offset of the first TOC marker (a newline,
  the first character, whitespace or none, the second character), the range is
  \<open>(k, k + 2000)\<close>; when the text has no marker at all, it is \<open>(0, 2500)\<close>, whatever
  the length of the text.
\<close>

theorem toc_range_first_marker:
  "(toc_marker_at text k \<and> (\<forall>j<k. \<not> toc_marker_at text j)
      \<longrightarrow> get_toc_range text = (k, k + 2000))
   \<and> ((\<forall>j. \<not> toc_marker_at text j) \<longrightarrow> get_toc_range text = (0, 2500))"
proof (intro conjI impI)
  assume a: "toc_marker_at text k \<and> (\<forall>j<k. \<not> toc_marker_at text j)"
  then have "k \<le> length text" "toc_marker_here (drop k text)"
    by (simp_all add: toc_marker_at_drop)
  moreover have "\<not> toc_marker_here (drop j text)" if "j < k" for j
    using a that \<open>k \<le> length text\<close> by (simp add: toc_marker_at_drop)
  ultimately have "find_first toc_marker_here text = Some k"
    by (simp add: find_first_Some_iff)
  then show "get_toc_range text = (k, k + 2000)"
    by (simp add: get_toc_range_def)
next
  assume "\<forall>j. \<not> toc_marker_at text j"
  then have "find_first toc_marker_here text = None"
    by (simp add: find_first_None_iff toc_marker_at_drop)
  then show "get_toc_range text = (0, 2500)"
    by (simp add: get_toc_range_def)
qed

theorem toc_range_first_marker_witness:
  "toc_marker_at doc_two_markers 2
   \<and> \<not> toc_marker_at doc_two_markers 0 \<and> \<not> toc_marker_at doc_two_markers 1
   \<and> get_toc_range doc_two_markers = (2, 2002)
   \<and> \<not> (\<exists>j. toc_marker_at [c_mu, c_lu] j) \<and> get_toc_range [c_mu, c_lu] = (0, 2500)"
proof -
  have a: "toc_marker_at doc_two_markers 2
           \<and> \<not> toc_marker_at doc_two_markers 0 \<and> \<not> toc_marker_at doc_two_markers 1"
    by (simp add: toc_marker_at_drop doc_two_markers_def is_space_def)
  then have a': "\<forall>j<2. \<not> toc_marker_at doc_two_markers j"
    by (simp add: less_Suc_eq numeral_2_eq_2)
  have b: "\<not> (\<exists>j. toc_marker_at [c_mu, c_lu] j)"
  proof
    assume "\<exists>j. toc_marker_at [c_mu, c_lu] j"
    then obtain j where "toc_marker_at [c_mu, c_lu] j" ..
    then show False
      by (cases j; cases "j - 1") (auto simp: toc_marker_at_drop)
  qed
  from a a' b toc_range_first_marker [of doc_two_markers 2]
    toc_range_first_marker [of "[c_mu, c_lu]"]
  show ?thesis by simp
qed

section \<open>Orchestrator\<close>

text \<open>
  C1. For every text and every keyword pattern, whatever the regular-expression
  engine does, \<open>extract_mda\<close> returns a string and raises nothing; when both
  strategies raise, the string is empty.
\<close>

theorem extract_mda_never_raises:
  "(\<exists>r. extract_mda rt text keywords_pattern = Inr r)
   \<and> ((\<exists>e. extract_mda_via_toc rt text keywords_pattern = Inl e)
        \<and> (\<exists>e. extract_mda_via_keyword_search rt text keywords_pattern = Inl e)
      \<longrightarrow> extract_mda rt text keywords_pattern = Inr [])"
  by (auto simp: extract_mda_def try_except_def split: sum.splits)

theorem extract_mda_never_raises_witness:
  "extract_mda_via_toc rt0 doc_single_entry [] = Inl IndexError
   \<and> extract_mda_via_keyword_search rt0 doc_single_entry [] = Inl IndexError
   \<and> extract_mda rt0 doc_single_entry [] = Inr []"
proof -
  have t: "extract_mda_via_toc rt0 doc_single_entry [] = Inl IndexError"
    by (simp add: eval_rules doc_single_entry_def)
  have k: "extract_mda_via_keyword_search rt0 doc_single_entry [] = Inl IndexError"
    by (simp add: eval_rules doc_single_entry_def)
  from t k extract_mda_never_raises [of rt0 doc_single_entry "[]"]
  show ?thesis by simp
qed


section \<open>Structure of the TOC-based extractor\<close>

lemma length_split_on_findall_on:
  "length (split_on p w s) = Suc (length (findall_on p w s))"
proof (induction p w s rule: split_on.induct)
  case (1 p w s)
  show ?case
  proof (cases "find_first p s")
    case None
    then show ?thesis by (simp add: split_on.simps findall_on.simps)
  next
    case (Some i)
    with "1.IH" [of i] show ?thesis
      by (subst split_on.simps, subst findall_on.simps) simp
  qed
qed

lemma length_toc_titles: "length (toc_titles rt text) = length (toc_markers text)"
  by (simp add: toc_titles_def toc_markers_def toc_section_titles_def toc_section_markers_def
      length_split_on_findall_on)

lemma extract_mda_via_toc_unfold:
  "extract_mda_via_toc rt text keywords_pattern =
     (if toc_titles rt text \<noteq> [] \<and> toc_markers text \<noteq> [] then
        ebind (mda_toc_index rt (get_mda_keywords_pattern keywords_pattern) (toc_titles rt text)) (\<lambda>i.
        ebind (section_title (toc_markers text) (toc_titles rt text) i) (\<lambda>mda_section_title.
        ebind (section_title (toc_markers text) (toc_titles rt text) (i + 1)) (\<lambda>next_section_title.
          try_except
            (toc_proximity rt (drop (snd (get_toc_range text)) text)
               (title_mask rt mda_section_title) (title_mask rt next_section_title))
            (toc_naive (drop (snd (get_toc_range text)) text)
               (title_mask rt mda_section_title) (title_mask rt next_section_title)))))
      else toc_numeral_fallback rt text (get_mda_keywords_pattern keywords_pattern))"
  by (simp add: extract_mda_via_toc_def toc_titles_def toc_markers_def toc_text_def Let_def
      split: prod.splits)


lemma section_title_last:
  assumes "Suc i = length (toc_titles rt text)"
  shows "\<exists>t. section_title (toc_markers text) (toc_titles rt text) i = Inr t"
    and "section_title (toc_markers text) (toc_titles rt text) (i + 1) = Inl IndexError"
  using assms length_toc_titles [of rt "text"]
  by (auto simp: section_title_def py_index_def ebind_def)

section \<open>TOC-based extractor: failure signalling\<close>

text \<open>
  C4. When the TOC yields titles and markers and the first title that contains the
  keyword pattern is the last entry, the TOC-based extractor raises IndexError (from
  indexing the markers at the next position, line 135, outside the \<open>try\<close>), and
  \<open>extract_mda\<close> is what the keyword search gives, or empty when that raises too.
\<close>

theorem toc_last_entry_raises:
  assumes "toc_titles rt text \<noteq> []" and "toc_markers text \<noteq> []"
    and "mda_toc_index rt (get_mda_keywords_pattern keywords_pattern) (toc_titles rt text) = Inr i"
    and "Suc i = length (toc_titles rt text)"
  shows "extract_mda_via_toc rt text keywords_pattern = Inl IndexError
         \<and> extract_mda rt text keywords_pattern =
             try_except (extract_mda_via_keyword_search rt text keywords_pattern) (Inr [])"
proof -
  from section_title_last [OF assms(4)] obtain t
    where t: "section_title (toc_markers text) (toc_titles rt text) i = Inr t"
      and n: "section_title (toc_markers text) (toc_titles rt text) (i + 1) = Inl IndexError"
    by blast
  have "extract_mda_via_toc rt text keywords_pattern = Inl IndexError"
    unfolding extract_mda_via_toc_unfold using assms(1-3) t n
    by (simp add: ebind_def)
  then show ?thesis
    by (simp add: extract_mda_def try_except_def)
qed

theorem toc_last_entry_raises_witness:
  "toc_titles rt0 doc_last_entry \<noteq> [] \<and> toc_markers doc_last_entry \<noteq> []
   \<and> mda_toc_index rt0 (get_mda_keywords_pattern []) (toc_titles rt0 doc_last_entry) = Inr 1
   \<and> Suc 1 = length (toc_titles rt0 doc_last_entry)
   \<and> extract_mda_via_toc rt0 doc_last_entry [] = Inl IndexError
   \<and> extract_mda rt0 doc_last_entry [] =
       Inr [c_di, 20108, c_jie, c_sp, 33891, 20107, 20250, 25253, 21578]"
proof -
  have t: "toc_titles rt0 doc_last_entry = [[88], [33891, 20107, 20250, 25253, 21578]]"
    by (simp add: toc_titles_def toc_text_def eval_rules doc_last_entry_def)
  have m: "toc_markers doc_last_entry \<noteq> []"
    by (simp add: toc_markers_def toc_text_def eval_rules doc_last_entry_def)
  have i: "mda_toc_index rt0 (get_mda_keywords_pattern []) (toc_titles rt0 doc_last_entry) = Inr 1"
    unfolding t by (simp add: eval_rules)
  have k: "extract_mda_via_keyword_search rt0 doc_last_entry [] =
           Inr [c_di, 20108, c_jie, c_sp, 33891, 20107, 20250, 25253, 21578]"
    by (simp add: eval_rules doc_last_entry_def)
  from toc_last_entry_raises [of rt0 doc_last_entry "[]" 1] t m i k
  show ?thesis by (simp add: try_except_def)
qed


section \<open>TOC-based extractor: absence of the section\<close>

lemma toc_numeral_fallback_keyword_search:
  "extract_mda_via_keyword_search rt text keywords_pattern =
     (case toc_numeral_fallback rt text (get_mda_keywords_pattern keywords_pattern) of
        Inl e \<Rightarrow> Inl e
      | Inr r \<Rightarrow>
          Inr ((if numerals_found rt text (get_mda_keywords_pattern keywords_pattern)
                then mda_header_literal rt text (get_mda_keywords_pattern keywords_pattern)
                else []) @ r))"
  by (auto simp: extract_mda_via_keyword_search_def toc_numeral_fallback_def ebind_def Let_def
      numerals_found_def mda_header_literal_def py_last_def split: sum.splits if_splits)





section \<open>TOC sub-fallback and keyword search\<close>

text \<open>
  Lines 170 to 197 repeat lines 216 to 245 with one difference: line 244 prepends the
  header literal to the result and line 196 does not. So when the TOC yields no titles
  or no markers, the two extractors raise on the same inputs with the same error, and
  where both return, the result of the keyword search is the header literal followed
  by the result of the TOC-based extractor.
\<close>

lemma sub_fallback_lacks_header:
  assumes "toc_titles rt text = [] \<or> toc_markers text = []"
  shows "extract_mda_via_keyword_search rt text keywords_pattern =
     (case extract_mda_via_toc rt text keywords_pattern of
        Inl e \<Rightarrow> Inl e
      | Inr r \<Rightarrow>
          Inr ((if numerals_found rt text (get_mda_keywords_pattern keywords_pattern)
                then mda_header_literal rt text (get_mda_keywords_pattern keywords_pattern)
                else []) @ r))"
proof -
  have "extract_mda_via_toc rt text keywords_pattern =
        toc_numeral_fallback rt text (get_mda_keywords_pattern keywords_pattern)"
    unfolding extract_mda_via_toc_unfold using assms by auto
  then show ?thesis
    by (simp add: toc_numeral_fallback_keyword_search)
qed

text \<open>
  C7. On \<open>doc_numbered_header\<close>, whose TOC range holds no section marker, the
  sub-fallback of the TOC-based extractor does not return what the keyword search
  returns on the same text and pattern: it returns the text behind the header up to
  the end, and the keyword search returns the same text with the header in front.
  Line 196 leaves out the header that line 244, and line 165 of the same function,
  put in front of the result.
\<close>

theorem toc_sub_fallback_drops_header:
  "toc_titles rt0 doc_numbered_header = []
   \<and> extract_mda_via_toc rt0 doc_numbered_header [] = Inr [88, c_nl, 22235, 12289, 89]
   \<and> extract_mda_via_keyword_search rt0 doc_numbered_header [] =
       Inr [19977, 12289, 33891, 20107, 20250, 25253, 21578, 88, c_nl, 22235, 12289, 89]
   \<and> extract_mda_via_toc rt0 doc_numbered_header []
       \<noteq> extract_mda_via_keyword_search rt0 doc_numbered_header []"
proof -
  have t: "toc_titles rt0 doc_numbered_header = []"
    by (simp add: toc_titles_def toc_text_def eval_rules doc_numbered_header_def)
  have r: "extract_mda_via_toc rt0 doc_numbered_header [] = Inr [88, c_nl, 22235, 12289, 89]"
    by (simp add: eval_rules doc_numbered_header_def)
  have k: "extract_mda_via_keyword_search rt0 doc_numbered_header [] =
       Inr [19977, 12289, 33891, 20107, 20250, 25253, 21578, 88, c_nl, 22235, 12289, 89]"
    by (simp add: eval_rules doc_numbered_header_def)
  from t r k show ?thesis by simp
qed


section \<open>Splitting at a literal separator\<close>

lemma sublist_iff_prefix_drop:
  "sublist sep s \<longleftrightarrow> (\<exists>j\<le>length s. prefix sep (drop j s))"
proof
  assume "sublist sep s"
  then obtain ps ss where "s = ps @ sep @ ss" by (auto simp: sublist_def)
  then have "length ps \<le> length s" "prefix sep (drop (length ps) s)" by simp_all
  then show "\<exists>j\<le>length s. prefix sep (drop j s)" by blast
next
  assume "\<exists>j\<le>length s. prefix sep (drop j s)"
  then obtain j zs where "drop j s = sep @ zs" by (auto simp: prefix_def)
  then have "s = take j s @ sep @ zs" by (metis append_take_drop_id)
  then show "sublist sep s" unfolding sublist_def by blast
qed

lemma find_first_prefix_None:
  "find_first (prefix sep) s = None \<longleftrightarrow> \<not> sublist sep s"
  by (simp add: find_first_None_iff sublist_iff_prefix_drop)

lemma find_first_prefix_Some:
  assumes "find_first (prefix sep) s = Some i"
  shows "s = take i s @ sep @ drop (i + length sep) s" and "i + length sep \<le> length s"
proof -
  from assms have p: "prefix sep (drop i s)" and "i \<le> length s"
    by (simp_all add: find_first_Some_iff)
  then obtain zs where zs: "drop i s = sep @ zs" by (auto simp: prefix_def)
  then have "drop (i + length sep) s = zs"
    by (metis add.commute append_eq_conv_conj drop_drop)
  with zs show "s = take i s @ sep @ drop (i + length sep) s"
    by (metis append_take_drop_id)
  from zs have "length sep \<le> length (drop i s)" by simp
  with \<open>i \<le> length s\<close> show "i + length sep \<le> length s" by simp
qed

lemma split_on_not_Nil: "split_on p w s \<noteq> []"
  by (subst split_on.simps) (simp split: option.splits)

lemma hd_split_on_prefix:
  assumes "sep \<noteq> []"
  shows "hd (split_on (prefix sep) (length sep) s) = truncate_at sep s"
proof (cases "find_first (prefix sep) s")
  case None
  then show ?thesis by (subst split_on.simps) (simp add: truncate_at_def)
next
  case (Some i)
  with find_first_prefix_Some(2) [OF Some] assms show ?thesis
    by (subst split_on.simps) (simp add: truncate_at_def)
qed

lemma last_split_on_prefix:
  assumes "sep \<noteq> []"
  shows "(if sublist sep s
          then \<exists>pre. s = pre @ sep @ last (split_on (prefix sep) (length sep) s)
          else last (split_on (prefix sep) (length sep) s) = s)
         \<and> \<not> sublist sep (last (split_on (prefix sep) (length sep) s))"
proof (induction "length s" arbitrary: s rule: less_induct)
  case less
  show ?case
  proof (cases "find_first (prefix sep) s")
    case None
    then have "\<not> sublist sep s" by (simp add: find_first_prefix_None)
    moreover from None have "split_on (prefix sep) (length sep) s = [s]"
      by (subst split_on.simps) simp
    ultimately show ?thesis by simp
  next
    case (Some i)
    let ?s' = "drop (i + length sep) s"
    note dec = find_first_prefix_Some [OF Some]
    have sub: "sublist sep s"
      using Some find_first_prefix_None [of sep s] by simp
    have step: "split_on (prefix sep) (length sep) s =
                take i s # split_on (prefix sep) (length sep) ?s'"
      using Some dec(2) assms by (subst split_on.simps) simp
    then have l: "last (split_on (prefix sep) (length sep) s) =
                  last (split_on (prefix sep) (length sep) ?s')"
      by (simp add: split_on_not_Nil)
    have "length ?s' < length s" using assms dec(2) by (cases sep) auto
    note IH = less [OF this]
    have "\<exists>pre. s = pre @ sep @ last (split_on (prefix sep) (length sep) ?s')"
    proof (cases "sublist sep ?s'")
      case True
      with IH obtain pre' where "?s' = pre' @ sep @ last (split_on (prefix sep) (length sep) ?s')"
        by auto
      with dec(1) have "s = (take i s @ sep @ pre') @ sep @ last (split_on (prefix sep) (length sep) ?s')"
        by (metis append.assoc)
      then show ?thesis by blast
    next
      case False
      with IH have "last (split_on (prefix sep) (length sep) ?s') = ?s'" by auto
      with dec(1) show ?thesis by metis
    qed
    with sub l IH show ?thesis by simp
  qed
qed

lemma truncate_at_prefix: "prefix (truncate_at sep s) s"
  by (simp add: truncate_at_def take_is_prefix split: option.splits)


section \<open>Keyword-search extractor\<close>

lemma replace_nl_all_last:
  assumes "replace_nl_all items = Inr hs" and "items \<noteq> []"
  shows "hs \<noteq> [] \<and> (\<exists>h0. last items = FStr h0 \<and> last hs = strip_nl h0)"
  using assms
proof (induction items arbitrary: hs rule: replace_nl_all.induct)
  case 1
  then show ?case by simp
next
  case (2 s items)
  from "2.prems"(1) obtain rs where rs: "replace_nl_all items = Inr rs" "hs = strip_nl s # rs"
    by (auto simp: ebind_def split: sum.splits)
  show ?case
  proof (cases "items = []")
    case True
    with rs show ?thesis by simp
  next
    case False
    with "2.IH" [OF rs(1)] rs show ?thesis by auto
  qed
next
  case (3 gs items)
  then show ?case by simp
qed

lemma replace_nl_all_Nil: "replace_nl_all items = Inr [] \<longleftrightarrow> items = []"
  by (cases items rule: replace_nl_all.cases) (auto simp: ebind_def split: sum.splits)

lemma strip_nl_leading:
  assumes "h0 = c_nl # t" and "c_nl \<notin> set t"
  shows "strip_nl h0 = t"
  using assms by (auto simp: strip_nl_def filter_id_conv)

lemma findall_item_no_groups:
  "m_groups m = [] \<Longrightarrow> findall_item m = FStr (m_text m)"
  by (simp add: findall_item_def)

lemma keyword_search_main_path:
  assumes "extract_mda_via_keyword_search rt text keywords_pattern = Inr r"
    and "numerals_found rt text (get_mda_keywords_pattern keywords_pattern)"
  shows "\<exists>ms h0.
           re_finditer rt (mda_header_prefix @ get_mda_keywords_pattern keywords_pattern) text = Inr ms
         \<and> ms \<noteq> [] \<and> findall_item (last ms) = FStr h0
         \<and> mda_header_literal rt text (get_mda_keywords_pattern keywords_pattern) = strip_nl h0
         \<and> strip_nl h0 \<noteq> []
         \<and> r = strip_nl h0
               @ truncate_at (next_header_literal rt text (get_mda_keywords_pattern keywords_pattern))
                   (last (split_on (prefix (strip_nl h0)) (length (strip_nl h0)) text))"
proof -
  let ?pat = "get_mda_keywords_pattern keywords_pattern"
  from assms(2) obtain ks where ks: "re_finditer rt ?pat text = Inr ks"
    and nf: "numbers_near text ks \<noteq> []"
    by (auto simp: numerals_found_def split: sum.splits)
  from assms(1) ks nf obtain ms hs n nn pieces parts where
    ms: "re_finditer rt (mda_header_prefix @ ?pat) text = Inr ms"
    and hs: "replace_nl_all (map findall_item ms) = Inr hs" "hs \<noteq> []"
    and n: "char_to_int_map (most_common (numbers_near text ks)) = Some n"
    and nn: "int_to_char_map (n + 1) = Some nn"
    and pieces: "py_split (last hs) text = Inr pieces"
    and parts: "py_split (c_nl # nn @ header_separator (last hs)) (last pieces) = Inr parts"
    and r: "r = last hs @ hd parts"
    by (auto simp: extract_mda_via_keyword_search_def ebind_def Let_def re_findall_def
        py_last_def lookup_def split: sum.splits if_splits option.splits)
  from hs have ne: "ms \<noteq> []"
    by (auto simp: replace_nl_all_Nil)
  with replace_nl_all_last [OF hs(1)] obtain h0 where
    h0: "findall_item (last ms) = FStr h0" "last hs = strip_nl h0"
    by (auto simp: last_map)
  let ?h = "strip_nl h0"
  have lit: "mda_header_literal rt text ?pat = ?h"
    using ms hs h0 by (simp add: mda_header_literal_def re_findall_def ebind_def)
  have nxt: "next_header_literal rt text ?pat = c_nl # nn @ header_separator ?h"
    using ks n nn lit by (simp add: next_header_literal_def)
  from pieces h0 have hne: "?h \<noteq> []" and
    pc: "pieces = split_on (prefix ?h) (length ?h) text"
    by (auto simp: py_split_def split: if_splits)
  from parts h0 have
    pt: "parts = split_on (prefix (c_nl # nn @ header_separator ?h))
                   (length (c_nl # nn @ header_separator ?h)) (last pieces)"
    by (auto simp: py_split_def split: if_splits)
  have "hd parts = truncate_at (c_nl # nn @ header_separator ?h) (last pieces)"
    unfolding pt by (rule hd_split_on_prefix) simp
  with r h0 nxt pc have "r = ?h @ truncate_at (next_header_literal rt text ?pat)
                               (last (split_on (prefix ?h) (length ?h) text))"
    by simp
  with ms ne h0(1) lit hne show ?thesis
    by blast
qed

lemma keyword_search_no_numerals:
  assumes "extract_mda_via_keyword_search rt text keywords_pattern = Inr r"
    and "\<not> numerals_found rt text (get_mda_keywords_pattern keywords_pattern)"
  shows "r = []"
  using assms
  by (auto simp: extract_mda_via_keyword_search_def ebind_def Let_def numerals_found_def
      split: sum.splits if_splits)

text \<open>
  What lines 231 to 245 compute. The header literal is the last item that \<open>findall\<close>
  gives for the header pattern, with every newline removed by line 233; for a match
  without groups that starts with its only newline this is the match without the
  leading newline. The result is the header literal followed by the last piece
  \<open>rest\<close> of the text split at that literal, cut at the first occurrence of the
  next-section header. When the literal occurs in the text, \<open>rest\<close> is the text behind
  an occurrence that no further occurrence follows. When line 233 removed a newline
  from inside the match, the literal need not occur in the text, and the split of line
  244 then splits nothing.
\<close>

lemma keyword_search_main_path_result:
  assumes "extract_mda_via_keyword_search rt text keywords_pattern = Inr r"
    and "numerals_found rt text (get_mda_keywords_pattern keywords_pattern)"
  shows "\<exists>ms h0 rest.
           re_finditer rt (mda_header_prefix @ get_mda_keywords_pattern keywords_pattern) text = Inr ms
         \<and> ms \<noteq> [] \<and> findall_item (last ms) = FStr h0
         \<and> mda_header_literal rt text (get_mda_keywords_pattern keywords_pattern) = strip_nl h0
         \<and> (m_groups (last ms) = [] \<and> (\<exists>t. m_text (last ms) = c_nl # t \<and> c_nl \<notin> set t)
              \<longrightarrow> strip_nl h0 = tl (m_text (last ms)))
         \<and> (if sublist (strip_nl h0) text then \<exists>pre. text = pre @ strip_nl h0 @ rest
             else rest = text)
         \<and> \<not> sublist (strip_nl h0) rest
         \<and> r = strip_nl h0
               @ truncate_at (next_header_literal rt text (get_mda_keywords_pattern keywords_pattern))
                   rest"
proof -
  let ?pat = "get_mda_keywords_pattern keywords_pattern"
  from keyword_search_main_path [OF assms] obtain ms h0 where
    ms: "re_finditer rt (mda_header_prefix @ ?pat) text = Inr ms" "ms \<noteq> []"
    and h0: "findall_item (last ms) = FStr h0"
    and lit: "mda_header_literal rt text ?pat = strip_nl h0"
    and hne: "strip_nl h0 \<noteq> []"
    and res: "r = strip_nl h0 @ truncate_at (next_header_literal rt text ?pat)
                    (last (split_on (prefix (strip_nl h0)) (length (strip_nl h0)) text))"
    by blast
  let ?h = "strip_nl h0"
  let ?rest = "last (split_on (prefix ?h) (length ?h) text)"
  have lead: "m_groups (last ms) = [] \<and> (\<exists>t. m_text (last ms) = c_nl # t \<and> c_nl \<notin> set t)
              \<longrightarrow> ?h = tl (m_text (last ms))"
    using h0 by (auto simp: findall_item_no_groups strip_nl_leading)
  from last_split_on_prefix [OF hne, of "text"]
  have "(if sublist ?h text then \<exists>pre. text = pre @ ?h @ ?rest else ?rest = text)
        \<and> \<not> sublist ?h ?rest"
    by simp
  with ms h0 lit lead res show ?thesis
    by blast
qed


lemmas parse_rules = parse_alternatives_def mda_header_prefix_def bar_here_def is_meta_def

text \<open>
  C3. With the caller's pattern \<open>pattern_with_newline\<close> the keyword search returns on
  \<open>doc_newline_keyword\<close>, and its result is not the header followed by the text behind
  the header. The header pattern matches once; the match without its leading newline
  keeps the newline inside it. Line 233 removes that newline too, so the literal of
  line 244 does not occur in the text, the split by the header splits nothing, and the
  result is the literal without any newline followed by the text from its very start
  up to the next-section header. The result does not even start with the header as
  the document has it.
\<close>

theorem keyword_search_newline_header:
  "extract_mda_via_keyword_search rt0 doc_newline_keyword pattern_with_newline =
     Inr ([19977, 12289, 35752, 35770, 20998, 26512]
          @ [65, 66, 67, 68, 69, 70, 71, 72, 73, 74, c_nl, 19977, 12289, 35752, 35770, c_nl,
             20998, 26512, 66])
   \<and> numerals_found rt0 doc_newline_keyword (get_mda_keywords_pattern pattern_with_newline)
   \<and> re_finditer rt0 (mda_header_prefix @ get_mda_keywords_pattern pattern_with_newline)
        doc_newline_keyword =
       Inr [\<lparr>m_start = 10,
             m_text = c_nl # [19977, 12289, 35752, 35770, c_nl, 20998, 26512],
             m_groups = []\<rparr>]
   \<and> \<not> prefix [19977, 12289, 35752, 35770, c_nl, 20998, 26512]
         ([19977, 12289, 35752, 35770, 20998, 26512]
          @ [65, 66, 67, 68, 69, 70, 71, 72, 73, 74, c_nl, 19977, 12289, 35752, 35770, c_nl,
             20998, 26512, 66])"
proof -
  have k: "extract_mda_via_keyword_search rt0 doc_newline_keyword pattern_with_newline =
     Inr ([19977, 12289, 35752, 35770, 20998, 26512]
          @ [65, 66, 67, 68, 69, 70, 71, 72, 73, 74, c_nl, 19977, 12289, 35752, 35770, c_nl,
             20998, 26512, 66])"
    by (simp add: eval_rules parse_rules pattern_with_newline_def doc_newline_keyword_def)
  have n: "numerals_found rt0 doc_newline_keyword (get_mda_keywords_pattern pattern_with_newline)"
    by (simp add: numerals_found_def eval_rules parse_rules pattern_with_newline_def doc_newline_keyword_def)
  have m: "re_finditer rt0 (mda_header_prefix @ get_mda_keywords_pattern pattern_with_newline)
        doc_newline_keyword =
       Inr [\<lparr>m_start = 10,
             m_text = c_nl # [19977, 12289, 35752, 35770, c_nl, 20998, 26512],
             m_groups = []\<rparr>]"
    by (simp add: eval_rules parse_rules pattern_with_newline_def doc_newline_keyword_def)
  from k n m show ?thesis by simp
qed


section \<open>The result and the text\<close>

lemma sublist_py_slice: "sublist (py_slice xs a b) xs"
proof -
  have "sublist (take n (drop m xs)) xs" for n m
  proof -
    have "xs = take m xs @ take n (drop m xs) @ drop n (drop m xs)"
      by (metis append_take_drop_id)
    then show ?thesis unfolding sublist_def by blast
  qed
  then show ?thesis by (simp add: py_slice_def Let_def)
qed

lemma sublist_of_drop: "sublist r (drop n xs) \<Longrightarrow> sublist r xs"
proof -
  assume "sublist r (drop n xs)"
  then obtain ps ss where "drop n xs = ps @ r @ ss" by (auto simp: sublist_def)
  then have "xs = (take n xs @ ps) @ r @ ss" by (metis append.assoc append_take_drop_id)
  then show ?thesis unfolding sublist_def by blast
qed

lemma prefix_of_suffix_sublist:
  assumes "prefix r t" and "xs = pre @ t"
  shows "sublist r xs"
proof -
  from assms(1) obtain ss where "t = r @ ss" by (auto simp: prefix_def)
  with assms(2) have "xs = pre @ r @ ss" by simp
  then show ?thesis unfolding sublist_def by blast
qed

lemma last_split_suffix:
  assumes "sep \<noteq> []"
  shows "\<exists>pre. s = pre @ last (split_on (prefix sep) (length sep) s)"
proof (cases "sublist sep s")
  case True
  with last_split_on_prefix [OF assms, of s] obtain pre
    where "s = pre @ sep @ last (split_on (prefix sep) (length sep) s)" by auto
  then have "s = (pre @ sep) @ last (split_on (prefix sep) (length sep) s)" by simp
  then show ?thesis by blast
next
  case False
  with last_split_on_prefix [OF assms, of s] show ?thesis by auto
qed

lemma toc_proximity_sublist:
  assumes "toc_proximity rt body tmask nmask = Inr r"
  shows "sublist r body"
  using assms
  by (auto simp: toc_proximity_def ebind_def sublist_py_slice
      split: sum.splits prod.splits option.splits)

lemma toc_naive_shape:
  assumes "toc_naive body tmask nmask = Inr r"
  shows "sublist r body
         \<or> (\<not> sublist tmask body \<and> (prefix r tmask \<or> (\<exists>s. r = tmask @ s \<and> prefix s body)))"
proof -
  from assms have mne: "tmask \<noteq> []" and nne: "nmask \<noteq> []"
    and r: "r = hd (split_on (prefix nmask) (length nmask)
                     (tmask @ last (split_on (prefix tmask) (length tmask) body)))"
    by (auto simp: toc_naive_def py_split_def ebind_def split: if_splits)
  let ?l = "last (split_on (prefix tmask) (length tmask) body)"
  from r have pr: "prefix r (tmask @ ?l)"
    by (simp add: hd_split_on_prefix [OF nne] truncate_at_prefix)
  show ?thesis
  proof (cases "sublist tmask body")
    case True
    with last_split_on_prefix [OF mne, of body] obtain pre where "body = pre @ tmask @ ?l"
      by auto
    with pr have "sublist r body" by (rule prefix_of_suffix_sublist)
    then show ?thesis ..
  next
    case False
    with last_split_on_prefix [OF mne, of body] have "?l = body" by auto
    with pr have "prefix r (tmask @ body)" by simp
    then have "prefix r tmask \<or> (\<exists>s. r = tmask @ s \<and> prefix s body)"
      by (simp add: prefix_append)
    with False show ?thesis by simp
  qed
qed

lemma toc_numeral_fallback_sublist:
  assumes "toc_numeral_fallback rt text pat = Inr r"
  shows "sublist r text"
proof (cases "r = []")
  case True
  then show ?thesis by simp
next
  case False
  with assms obtain h nxt pieces parts where
    pieces: "py_split h text = Inr pieces"
    and parts: "py_split nxt (last pieces) = Inr parts"
    and rp: "r = hd parts"
    by (auto simp: toc_numeral_fallback_def ebind_def Let_def split: sum.splits if_splits)
  from pieces have hne: "h \<noteq> []" and pc: "pieces = split_on (prefix h) (length h) text"
    by (auto simp: py_split_def split: if_splits)
  from parts have nne: "nxt \<noteq> []"
    and pt: "parts = split_on (prefix nxt) (length nxt) (last pieces)"
    by (auto simp: py_split_def split: if_splits)
  from rp pt pc have r: "r = hd (split_on (prefix nxt) (length nxt)
                     (last (split_on (prefix h) (length h) text)))"
    by simp
  let ?l = "last (split_on (prefix h) (length h) text)"
  from r have "prefix r ?l"
    by (simp add: hd_split_on_prefix [OF nne] truncate_at_prefix)
  moreover from last_split_suffix [OF hne, of "text"] obtain pre where "text = pre @ ?l" ..
  ultimately show ?thesis by (rule prefix_of_suffix_sublist)
qed

lemma keyword_search_shape:
  assumes "extract_mda_via_keyword_search rt text keywords_pattern = Inr r"
  shows "sublist r text
         \<or> (\<not> sublist (mda_header_literal rt text (get_mda_keywords_pattern keywords_pattern)) text
            \<and> (\<exists>s. r = mda_header_literal rt text (get_mda_keywords_pattern keywords_pattern) @ s
                   \<and> sublist s text))"
proof (cases "numerals_found rt text (get_mda_keywords_pattern keywords_pattern)")
  case False
  with keyword_search_no_numerals [OF assms] show ?thesis by simp
next
  case True
  let ?pat = "get_mda_keywords_pattern keywords_pattern"
  let ?h = "mda_header_literal rt text ?pat"
  let ?l = "last (split_on (prefix ?h) (length ?h) text)"
  from keyword_search_main_path [OF assms True] obtain h0 where
    lit: "?h = strip_nl h0" and hne: "strip_nl h0 \<noteq> []"
    and res: "r = strip_nl h0 @ truncate_at (next_header_literal rt text ?pat)
                    (last (split_on (prefix (strip_nl h0)) (length (strip_nl h0)) text))"
    by blast
  from lit hne have hne': "?h \<noteq> []" by simp
  from res lit have res': "r = ?h @ truncate_at (next_header_literal rt text ?pat) ?l"
    by simp
  have pt: "prefix (truncate_at (next_header_literal rt text ?pat) ?l) ?l"
    by (rule truncate_at_prefix)
  show ?thesis
  proof (cases "sublist ?h text")
    case True
    with last_split_on_prefix [OF hne', of "text"] obtain pre where "text = pre @ ?h @ ?l"
      by auto
    moreover from res' pt have "prefix r (?h @ ?l)" by simp
    ultimately have "sublist r text" by (rule prefix_of_suffix_sublist [rotated])
    then show ?thesis ..
  next
    case False
    with last_split_on_prefix [OF hne', of "text"] have "?l = text" by auto
    with pt have "sublist (truncate_at (next_header_literal rt text ?pat) ?l) text"
      by (metis prefix_imp_sublist)
    with False res' show ?thesis by blast
  qed
qed


text \<open>
  Where a result that is no substring of the text can come from. The string that
  \<open>extract_mda\<close> returns is a contiguous substring of the text (the empty string is
  one) whenever the literal that lines 165 and 244 put in front occurs in the text they
  split: the MD&A title mask in the text behind the TOC range, the header literal in
  the whole text. Only when that literal is absent can the result leave the text.
\<close>

lemma extract_mda_substring_unless_literal_absent:
  assumes "extract_mda rt text keywords_pattern = Inr r"
  shows "sublist r text
     \<or> (\<not> sublist (toc_mda_title_mask rt text (get_mda_keywords_pattern keywords_pattern))
            (drop (snd (get_toc_range text)) text)
        \<and> (prefix r (toc_mda_title_mask rt text (get_mda_keywords_pattern keywords_pattern))
           \<or> (\<exists>s. r = toc_mda_title_mask rt text (get_mda_keywords_pattern keywords_pattern) @ s
                  \<and> sublist s text)))
     \<or> (\<not> sublist (mda_header_literal rt text (get_mda_keywords_pattern keywords_pattern)) text
        \<and> (\<exists>s. r = mda_header_literal rt text (get_mda_keywords_pattern keywords_pattern) @ s
               \<and> sublist s text))"
proof (cases "extract_mda_via_toc rt text keywords_pattern")
  case (Inr r')
  with assms have rr: "r' = r" by (simp add: extract_mda_def try_except_def)
  let ?pat = "get_mda_keywords_pattern keywords_pattern"
  let ?body = "drop (snd (get_toc_range text)) text"
  show ?thesis
  proof (cases "toc_titles rt text \<noteq> [] \<and> toc_markers text \<noteq> []")
    case False
    with Inr rr have "toc_numeral_fallback rt text ?pat = Inr r"
      unfolding extract_mda_via_toc_unfold by auto
    then show ?thesis by (simp add: toc_numeral_fallback_sublist)
  next
    case True
    with Inr rr obtain i t t2 where
      i: "mda_toc_index rt ?pat (toc_titles rt text) = Inr i"
      and t: "section_title (toc_markers text) (toc_titles rt text) i = Inr t"
      and res: "try_except (toc_proximity rt ?body (title_mask rt t) (title_mask rt t2))
                  (toc_naive ?body (title_mask rt t) (title_mask rt t2)) = Inr r"
      unfolding extract_mda_via_toc_unfold
      by (auto simp: ebind_def split: sum.splits)
    from i t have m: "toc_mda_title_mask rt text ?pat = title_mask rt t"
      by (simp add: toc_mda_title_mask_def)
    show ?thesis
    proof (cases "toc_proximity rt ?body (title_mask rt t) (title_mask rt t2)")
      case (Inr r2)
      with res have "toc_proximity rt ?body (title_mask rt t) (title_mask rt t2) = Inr r"
        by (simp add: try_except_def)
      then have "sublist r ?body" by (rule toc_proximity_sublist)
      then have "sublist r text" by (rule sublist_of_drop)
      then show ?thesis ..
    next
      case (Inl e)
      with res have "toc_naive ?body (title_mask rt t) (title_mask rt t2) = Inr r"
        by (simp add: try_except_def)
      from toc_naive_shape [OF this]
      show ?thesis
      proof
        assume "sublist r ?body"
        then have "sublist r text" by (rule sublist_of_drop)
        then show ?thesis ..
      next
        assume a: "\<not> sublist (title_mask rt t) ?body
                   \<and> (prefix r (title_mask rt t)
                      \<or> (\<exists>s. r = title_mask rt t @ s \<and> prefix s ?body))"
        have "sublist s text" if "prefix s ?body" for s
          using that by (metis prefix_imp_sublist sublist_of_drop)
        with a m show ?thesis by auto
      qed
    qed
  qed
next
  case (Inl e)
  show ?thesis
  proof (cases "extract_mda_via_keyword_search rt text keywords_pattern")
    case (Inr r')
    with Inl assms have "extract_mda_via_keyword_search rt text keywords_pattern = Inr r"
      by (simp add: extract_mda_def try_except_def)
    from keyword_search_shape [OF this] show ?thesis by blast
  next
    case (Inl e')
    with \<open>extract_mda_via_toc rt text keywords_pattern = Inl e\<close> assms have "r = []"
      by (simp add: extract_mda_def try_except_def)
    then show ?thesis by simp
  qed
qed

text \<open>
  C5. On \<open>doc_short_toc\<close> the string that \<open>extract_mda\<close> returns is neither empty nor
  a substring of the text. It is the title mask, "section one" directly followed by
  the phrase, while the text has a space between the two: the title is stripped (line
  117) and joined to its marker without the space (line 131), the unpacking of line
  141 raises, the naive split does not find the mask, and line 165 returns the mask it
  rebuilt.
\<close>

theorem extract_mda_short_toc_result:
  "extract_mda rt0 doc_short_toc [] = Inr [c_di, 19968, c_jie, 33891, 20107, 20250, 25253, 21578]
   \<and> [c_di, 19968, c_jie, 33891, 20107, 20250, 25253, 21578] \<noteq> ([] :: ustring)
   \<and> \<not> sublist [c_di, 19968, c_jie, 33891, 20107, 20250, 25253, 21578] doc_short_toc"
proof -
  have x: "extract_mda rt0 doc_short_toc [] =
           Inr [c_di, 19968, c_jie, 33891, 20107, 20250, 25253, 21578]"
    by (simp add: eval_rules doc_short_toc_def)
  have s: "\<not> sublist [c_di, 19968, c_jie, 33891, 20107, 20250, 25253, 21578] doc_short_toc"
    by (simp add: doc_short_toc_def sublist_Cons_right)
  from x s show ?thesis by simp
qed

section \<open>A well-formed TOC with spaced headers\<close>

lemma length_toc_part: "length toc_part = 46"
  by (simp add: toc_part_def)

lemma doc_spaced_range: "get_toc_range doc_spaced = (0, 2000)"
  by (simp add: get_toc_range_def doc_spaced_def toc_part_def is_space_def)

lemma doc_spaced_body: "drop 2000 doc_spaced = body_part"
  by (simp add: doc_spaced_def length_toc_part)

lemma doc_spaced_toc_text: "toc_text doc_spaced = toc_part @ replicate 1954 c_sp"
proof -
  have "take 2000 doc_spaced = toc_part @ replicate 1954 c_sp"
    by (simp add: doc_spaced_def length_toc_part)
  moreover have "length doc_spaced = 2000 + length body_part"
    by (simp add: doc_spaced_def length_toc_part)
  ultimately show ?thesis
    by (simp add: toc_text_def doc_spaced_range py_slice_def)
qed

lemma marker_spaces [simp]:
  "section_marker_here (replicate n c_sp) = False"
  "section_marker_here (a # replicate n c_sp) = False"
  "section_marker_here (a # b # replicate n c_sp) = False"
  "section_marker_here (a # b # c # replicate n c_sp) = False"
  by (cases n; cases "n - 1"; cases "n - 2"; cases "n - 3";
      simp add: section_marker_here_def is_cn_numeral_def cn_numerals_def)+

lemma find_marker_spaces: "find_first section_marker_here (replicate n c_sp) = None"
  by (simp add: find_first_None_iff)

lemma dropWhile_spaces: "dropWhile is_space (replicate n c_sp @ ys) = dropWhile is_space ys"
  by (induction n) (simp_all add: is_space_def)

lemma rstrip_spaces: "rstrip (xs @ replicate n c_sp) = rstrip xs"
  by (simp add: rstrip_def dropWhile_spaces)

lemma marker_four:
  "section_marker_here (a # b # c # d # s) =
     (a = c_nl \<and> b = c_di \<and> is_cn_numeral c \<and> (d = c_jie \<or> d = c_bar \<or> d = c_zhang))"
  by (simp add: section_marker_here_def)

lemma doc_spaced_split:
  "split_on section_marker_here 4 (toc_part @ replicate 1954 c_sp) =
     [[c_nl, c_mu, c_lu], c_sp # [20844, 21496, 31616, 20171], c_sp # [20250, 35745, 25968, 25454, 25688, 35201], c_sp # [31649, 29702, 23618, 35752, 35770, 19982, 20998, 26512],
      (c_sp # [20844, 21496, 27835, 29702] @ [c_nl]) @ replicate 1954 c_sp]"
  by (simp add: toc_part_def split_on.simps find_marker_spaces marker_four
      is_cn_numeral_def cn_numerals_def)


lemma doc_spaced_markers:
  "toc_markers doc_spaced = [[10, 31532, 19968, 33410], [10, 31532, 20108, 33410], [10, 31532, 19977, 33410], [10, 31532, 22235, 33410]]"
  by (simp add: toc_markers_def toc_section_markers_def doc_spaced_toc_text toc_part_def
      findall_on.simps find_marker_spaces marker_four is_cn_numeral_def cn_numerals_def)

lemma doc_spaced_titles:
  "toc_titles rt0 doc_spaced = [[20844, 21496, 31616, 20171], [20250, 35745, 25968, 25454, 25688, 35201], [31649, 29702, 23618, 35752, 35770, 19982, 20998, 26512], [20844, 21496, 27835, 29702]]"
  by (simp add: toc_titles_def toc_section_titles_def doc_spaced_toc_text doc_spaced_split
      clean_title_def strip_def rstrip_def dropWhile_spaces rt0_def is_space_def)

lemma doc_spaced_index:
  "mda_toc_index rt0 (get_mda_keywords_pattern []) (toc_titles rt0 doc_spaced) = Inr 2"
  unfolding doc_spaced_titles by (simp add: eval_rules)


text \<open>
  C2. On \<open>doc_spaced\<close> the TOC-based extractor does not return the text between the
  third and the fourth header. The title is stripped (line 117) and joined to its
  marker without the space (line 131), so the mask has no whitespace to split at, the
  unpacking of line 141 raises, and the handler finds neither mask in a body whose
  headers have the space: the result is the mask followed by the whole text behind the
  TOC range, the four headers and the text after the fourth included.
\<close>

theorem toc_spaced_headers_result:
  "extract_mda_via_toc rt0 doc_spaced [] = Inr (mda_mask @ body_part)"
  unfolding extract_mda_via_toc_unfold doc_spaced_index doc_spaced_titles doc_spaced_markers
    doc_spaced_range snd_conv doc_spaced_body
  by (simp add: eval_rules body_part_def mda_mask_def)

end
